theory Spec2Isabelle
  imports Complex_Main "HOL-Library.Word" "HOL-Library.Signed_Division" "HOL-Library.Sublist"
begin

section \<open>Bitbucket Server collector helpers\<close>

text \<open>
  A shallow embedding of the shared helpers of the Bitbucket Server plugin
  (package \<^verbatim>\<open>tasks\<close>): the query builders, the response decoders, the status
  classifier and the constructors of the input iterators.

  Conventions of the embedding.
  \<^item> Go's \<^verbatim>\<open>int\<close> is a 64-bit two's complement word; \<^verbatim>\<open>/\<close> and \<^verbatim>\<open>%\<close> truncate towards
    zero and panic on a zero divisor.
  \<^item> A Go function returning \<^verbatim>\<open>(value, errors.Error)\<close> returns a pair whose second
    component is an \<open>Error option\<close>; \<open>None\<close> is the nil error.
  \<^item> A run-time panic is the value \<open>Panicked\<close> of the type \<open>outcome\<close>.
  \<^item> The pointer \<^verbatim>\<open>res\<close> of \<^verbatim>\<open>decodeResponse\<close>, which the code compares with nil, is an
    \<open>option\<close>. The other pointer arguments are dereferenced without a check by the
    code and are taken as present.
  \<^item> Functions of the Go standard library (\<^verbatim>\<open>json.Unmarshal\<close>, \<^verbatim>\<open>url.Parse\<close>,
    \<^verbatim>\<open>URL.Query\<close>, \<^verbatim>\<open>Time.Format\<close>) and methods of injected interfaces are parameters
    of the functions that call them.
\<close>

subsection \<open>Go integers and their decimal form\<close>

type_synonym go_int = "64 word"

datatype 'a outcome = Returned 'a | Panicked string

definition go_quo :: "go_int \<Rightarrow> go_int \<Rightarrow> go_int option" where
  "go_quo a b = (if b = 0 then None else Some (word_of_int (sint a sdiv sint b)))"

definition go_rem :: "go_int \<Rightarrow> go_int \<Rightarrow> go_int option" where
  "go_rem a b = (if b = 0 then None else Some (word_of_int (sint a smod sint b)))"

definition digit_char :: "nat \<Rightarrow> char" where
  "digit_char d = ''0123456789'' ! d"

text \<open>
  The decimal form is built as \<^verbatim>\<open>strconv\<close> builds it: the last digit is taken off
  the number and put in front of the digits already written, until one digit is left.
\<close>

function decimal_acc :: "nat \<Rightarrow> string \<Rightarrow> string" where
  "decimal_acc n acc =
     (if n < 10 then digit_char n # acc
      else decimal_acc (n div 10) (digit_char (n mod 10) # acc))"
  by pat_completeness auto
termination
  by (relation "measure fst") auto

definition FormatInt :: "int \<Rightarrow> string" where
  "FormatInt i =
     (if i < 0 then CHR ''-'' # decimal_acc (nat (- i)) [] else decimal_acc (nat i) [])"

text \<open>\<^verbatim>\<open>fmt.Sprintf("%v", n)\<close> for an \<^verbatim>\<open>int\<close>.\<close>

definition Sprintf_v :: "go_int \<Rightarrow> string" where
  "Sprintf_v n = FormatInt (sint n)"

subsection \<open>Errors\<close>

text \<open>
  \<open>ErrFinishCollect\<close> and \<open>ErrIgnoreAndContinue\<close> are the two package-level values
  of the helper package that the engine compares by identity. \<open>GoError\<close> is an
  error of the standard library with its text; \<open>Convert\<close>, \<open>Default_New\<close>,
  \<open>Default_Wrap\<close> and \<open>Unauthorized_New\<close> are the constructors of package
  \<^verbatim>\<open>errors\<close> that the code calls.
\<close>

datatype Error =
    ErrFinishCollect
  | ErrIgnoreAndContinue
  | GoError string
  | Convert Error
  | Default_New string
  | Default_Wrap Error string
  | Unauthorized_New string

definition errors_Convert :: "string option \<Rightarrow> Error option" where
  "errors_Convert err = (case err of None \<Rightarrow> None | Some e \<Rightarrow> Some (Convert (GoError e)))"

fun is_signal :: "Error \<Rightarrow> bool" where
  "is_signal ErrFinishCollect = True"
| "is_signal ErrIgnoreAndContinue = True"
| "is_signal _ = False"

subsection \<open>Data of the package\<close>

record BitbucketServerApiParams =
  ConnectionId :: "64 word"
  FullName :: string

record BitbucketServerPagination =
  Values :: "string list"
  Limit :: go_int
  Size :: go_int
  Page :: go_int
  Start :: go_int
  Next :: string
  IsLastPage :: bool

definition zero_BitbucketServerPagination :: BitbucketServerPagination where
  "zero_BitbucketServerPagination =
     \<lparr>Values = [], Limit = 0, Size = 0, Page = 0, Start = 0, Next = [], IsLastPage = False\<rparr>"

text \<open>The fields of the helper package's types that the code reads.\<close>

record Pager =
  Pager_Page :: go_int
  Pager_Size :: go_int

record RequestData =
  Pager :: Pager

record ApiCollectorArgs =
  PageSize :: go_int

text \<open>
  A \<^verbatim>\<open>time.Time\<close> is an instant on a linear scale, here the whole number of seconds
  since the Unix epoch, which is the resolution of the RFC 3339 form the code prints.
\<close>

type_synonym Time = int

record ApiCollectorStateManager =
  IsIncremental :: bool
  Since :: "Time option"

text \<open>
  An \<^verbatim>\<open>http.Response\<close>: its status code, what \<^verbatim>\<open>io.ReadAll\<close> gives on its body (an
  error text or the bytes) and the text of \<^verbatim>\<open>res.Request.URL.String()\<close>.
\<close>

record Response =
  StatusCode :: go_int
  Body :: "string + string"
  Request_URL :: string

subsection \<open>Query values\<close>

text \<open>\<^verbatim>\<open>url.Values\<close> is a map from a key to a list of values; a missing key reads as the
  empty list, and the nil map reads as the empty map.\<close>

type_synonym url_Values = "string \<rightharpoonup> string list"

definition Values_Set :: "string \<Rightarrow> string \<Rightarrow> url_Values \<Rightarrow> url_Values" where
  "Values_Set key v q = q(key \<mapsto> [v])"

definition Values_index :: "url_Values \<Rightarrow> string \<Rightarrow> string list" where
  "Values_index q key = (case q key of None \<Rightarrow> [] | Some vs \<Rightarrow> vs)"

subsection \<open>Query builders\<close>

definition GetQuery :: "RequestData \<Rightarrow> url_Values \<times> Error option" where
  "GetQuery reqData =
     (let query = Map.empty;
          query = Values_Set ''state'' ''all'' query;
          query = Values_Set ''page'' (Sprintf_v (Pager_Page (Pager reqData))) query;
          query = Values_Set ''pagelen'' (Sprintf_v (Pager_Size (Pager reqData))) query
      in (query, None))"

definition GetQueryCreatedAndUpdated ::
  "(Time \<Rightarrow> string) \<Rightarrow> string \<Rightarrow> ApiCollectorStateManager \<Rightarrow> RequestData
     \<Rightarrow> url_Values \<times> Error option" where
  "GetQueryCreatedAndUpdated Format_RFC3339 fields' collectorWithState reqData =
     (case GetQuery reqData of
        (query, Some err) \<Rightarrow> (Map.empty, Some err)
      | (query, None) \<Rightarrow>
          (let query = Values_Set ''fields'' fields' query;
               query = Values_Set ''sort'' ''created_on'' query;
               query = (if Since collectorWithState \<noteq> None
                        then Values_Set ''q''
                               (''updated_on>='' @ Format_RFC3339 (the (Since collectorWithState))) query
                        else query)
           in (query, None)))"

definition GetQueryFields :: "string \<Rightarrow> RequestData \<Rightarrow> url_Values \<times> Error option" where
  "GetQueryFields fields' reqData =
     (case GetQuery reqData of
        (query, Some err) \<Rightarrow> (Map.empty, Some err)
      | (query, None) \<Rightarrow> (Values_Set ''fields'' fields' query, None))"

subsection \<open>Response decoders\<close>

definition decodeResponse ::
  "(string \<Rightarrow> 'm \<Rightarrow> string option \<times> 'm) \<Rightarrow> Response option \<Rightarrow> 'm \<Rightarrow> Error option \<times> 'm" where
  "decodeResponse json_Unmarshal res message =
     (case res of
        None \<Rightarrow> (Some (Default_New ''res is nil''), message)
      | Some r \<Rightarrow>
          (case Body r of
             Inl err \<Rightarrow>
               (Some (Default_Wrap (GoError err)
                        (''error reading response from '' @ Request_URL r)), message)
           | Inr resBody \<Rightarrow>
               (case json_Unmarshal resBody message of
                  (err, message') \<Rightarrow>
                    (case errors_Convert err of
                       Some e \<Rightarrow>
                         (Some (Default_Wrap e
                                  (''error decoding response from '' @ Request_URL r
                                     @ '': raw response: '' @ resBody)), message')
                     | None \<Rightarrow> (None, message')))))"

text \<open>
  \<^verbatim>\<open>GetNextPageCustomData\<close> decodes into a struct with the one field \<^verbatim>\<open>Next\<close>, here a
  string. It returns an \<^verbatim>\<open>interface{}\<close>, here a \<open>string option\<close> with \<open>None\<close> for nil.
  Indexing the list of the values of \<^verbatim>\<open>page\<close> at 0 panics when the list is empty.
\<close>

definition GetNextPageCustomData ::
  "(string \<Rightarrow> string \<Rightarrow> string option \<times> string) \<Rightarrow> (string \<Rightarrow> string + 'u) \<Rightarrow> ('u \<Rightarrow> url_Values)
     \<Rightarrow> Response option \<Rightarrow> (string option \<times> Error option) outcome" where
  "GetNextPageCustomData json_Unmarshal url_Parse URL_Query prevPageResponse =
     (case decodeResponse json_Unmarshal prevPageResponse [] of
        (Some err, rawMessages_Next) \<Rightarrow> Returned (None, Some err)
      | (None, rawMessages_Next) \<Rightarrow>
          if rawMessages_Next = [] then Returned (Some [], Some ErrFinishCollect)
          else (case url_Parse rawMessages_Next of
                  Inl err \<Rightarrow> Returned (None, Some (Convert (GoError err)))
                | Inr u \<Rightarrow>
                    (case Values_index (URL_Query u) ''page'' of
                       [] \<Rightarrow> Panicked ''index out of range [0] with length 0''
                     | page # _ \<Rightarrow> Returned (Some page, None))))"

definition GetTotalPagesFromResponse ::
  "(Response \<Rightarrow> BitbucketServerPagination \<Rightarrow> Error option \<times> BitbucketServerPagination)
     \<Rightarrow> Response \<Rightarrow> ApiCollectorArgs \<Rightarrow> (go_int \<times> Error option) outcome" where
  "GetTotalPagesFromResponse api_UnmarshalResponse res args =
     (case api_UnmarshalResponse res zero_BitbucketServerPagination of
        (Some err, body) \<Rightarrow> Returned (0, Some err)
      | (None, body) \<Rightarrow>
          (case (go_quo (Size body) (PageSize args), go_rem (Size body) (PageSize args)) of
             (Some pages, Some r) \<Rightarrow> Returned (if 0 <s r then pages + 1 else pages, None)
           | _ \<Rightarrow> Panicked ''integer divide by zero''))"

definition GetRawMessageFromResponse ::
  "(string \<Rightarrow> string list \<Rightarrow> string option \<times> string list) \<Rightarrow> Response option
     \<Rightarrow> string list option \<times> Error option" where
  "GetRawMessageFromResponse json_Unmarshal res =
     (case decodeResponse json_Unmarshal res [] of
        (Some err, rawMessages_Values) \<Rightarrow> (None, Some err)
      | (None, rawMessages_Values) \<Rightarrow> (Some rawMessages_Values, None))"

subsection \<open>Status classification\<close>

definition ignoreHTTPStatus404 :: "Response \<Rightarrow> Error option" where
  "ignoreHTTPStatus404 res =
     (if StatusCode res = 401
      then Some (Unauthorized_New ''authentication failed, please check your AccessToken'')
      else if StatusCode res = 404 then Some ErrIgnoreAndContinue
      else None)"

subsection \<open>Input iterators\<close>

text \<open>
  The clauses of package \<^verbatim>\<open>dal\<close> that the code builds, as data: the SQL text and
  the values bound to its \<^verbatim>\<open>?\<close> placeholders.
\<close>

datatype sql_value = SqlString string | SqlUint64 "64 word" | SqlTime Time | SqlInt go_int

datatype Clause = Select string | From string | Where string "sql_value list"

record BitbucketServerOptions =
  Options_ConnectionId :: "64 word"
  Options_FullName :: string

record BitbucketTaskData =
  Options :: BitbucketServerOptions

definition CreateRawDataSubTaskArgs_Params :: "BitbucketTaskData \<Rightarrow> BitbucketServerApiParams" where
  "CreateRawDataSubTaskArgs_Params data =
     \<lparr>ConnectionId = Options_ConnectionId (Options data),
      FullName = Options_FullName (Options data)\<rparr>"

text \<open>
  The three constructors build their clauses in the same way and hand them to the
  \<^verbatim>\<open>Cursor\<close> method of the injected database, then wrap the cursor with
  \<^verbatim>\<open>api.NewDalCursorIterator\<close> and the type of the input struct. The clause lists are
  definitions of their own so that they can be spoken about.
\<close>

definition GetBranchesIterator_clauses ::
  "BitbucketTaskData \<Rightarrow> ApiCollectorStateManager \<Rightarrow> Clause list" where
  "GetBranchesIterator_clauses data collectorWithState =
     (let clauses =
            [Select ''bb.branch'',
             From ''_tool_bitbucket_server_branches bb'',
             Where ''bb.repo_id = ? and bb.connection_id = ?''
               [SqlString (Options_FullName (Options data)),
                SqlUint64 (Options_ConnectionId (Options data))]]
      in if IsIncremental collectorWithState \<and> Since collectorWithState \<noteq> None
         then clauses @ [Where ''bitbucket_updated_at > ?'' [SqlTime (the (Since collectorWithState))]]
         else clauses)"

definition GetCommitsIterator_clauses ::
  "BitbucketTaskData \<Rightarrow> ApiCollectorStateManager \<Rightarrow> Clause list" where
  "GetCommitsIterator_clauses data collectorWithState =
     (let clauses =
            [Select ''bc.commit_sha'',
             From ''_tool_bitbucket_server_commits bc'',
             Where ''bc.repo_id = ? and bc.connection_id = ?''
               [SqlString (Options_FullName (Options data)),
                SqlUint64 (Options_ConnectionId (Options data))]]
      in if IsIncremental collectorWithState \<and> Since collectorWithState \<noteq> None
         then clauses @ [Where ''bitbucket_updated_at > ?'' [SqlTime (the (Since collectorWithState))]]
         else clauses)"

definition GetPullRequestsIterator_clauses ::
  "BitbucketTaskData \<Rightarrow> ApiCollectorStateManager \<Rightarrow> Clause list" where
  "GetPullRequestsIterator_clauses data collectorWithState =
     (let clauses =
            [Select ''bpr.bitbucket_id'',
             From ''_tool_bitbucket_server_pull_requests bpr'',
             Where ''bpr.repo_id = ? and bpr.connection_id = ?''
               [SqlString (Options_FullName (Options data)),
                SqlUint64 (Options_ConnectionId (Options data))]]
      in if IsIncremental collectorWithState \<and> Since collectorWithState \<noteq> None
         then clauses @ [Where ''bitbucket_updated_at > ?'' [SqlTime (the (Since collectorWithState))]]
         else clauses)"

definition open_iterator ::
  "(Clause list \<Rightarrow> Error + 'c) \<Rightarrow> ('c \<Rightarrow> string \<Rightarrow> 'i option \<times> Error option) \<Rightarrow> string
     \<Rightarrow> Clause list \<Rightarrow> 'i option \<times> Error option" where
  "open_iterator db_Cursor NewDalCursorIterator input_type clauses =
     (case db_Cursor clauses of
        Inl err \<Rightarrow> (None, Some err)
      | Inr cursor \<Rightarrow> NewDalCursorIterator cursor input_type)"

definition GetBranchesIterator ::
  "(Clause list \<Rightarrow> Error + 'c) \<Rightarrow> ('c \<Rightarrow> string \<Rightarrow> 'i option \<times> Error option)
     \<Rightarrow> BitbucketTaskData \<Rightarrow> ApiCollectorStateManager \<Rightarrow> 'i option \<times> Error option" where
  "GetBranchesIterator db_Cursor NewDalCursorIterator data collectorWithState =
     open_iterator db_Cursor NewDalCursorIterator ''BitbucketServerBranchInput''
       (GetBranchesIterator_clauses data collectorWithState)"

definition GetCommitsIterator ::
  "(Clause list \<Rightarrow> Error + 'c) \<Rightarrow> ('c \<Rightarrow> string \<Rightarrow> 'i option \<times> Error option)
     \<Rightarrow> BitbucketTaskData \<Rightarrow> ApiCollectorStateManager \<Rightarrow> 'i option \<times> Error option" where
  "GetCommitsIterator db_Cursor NewDalCursorIterator data collectorWithState =
     open_iterator db_Cursor NewDalCursorIterator ''BitbucketServerCommitInput''
       (GetCommitsIterator_clauses data collectorWithState)"

definition GetPullRequestsIterator ::
  "(Clause list \<Rightarrow> Error + 'c) \<Rightarrow> ('c \<Rightarrow> string \<Rightarrow> 'i option \<times> Error option)
     \<Rightarrow> BitbucketTaskData \<Rightarrow> ApiCollectorStateManager \<Rightarrow> 'i option \<times> Error option" where
  "GetPullRequestsIterator db_Cursor NewDalCursorIterator data collectorWithState =
     open_iterator db_Cursor NewDalCursorIterator ''BitbucketServerInput''
       (GetPullRequestsIterator_clauses data collectorWithState)"

subsection \<open>The storage layer behind the iterators\<close>

text \<open>
  A row is an association list from column names to values, a database an
  association list from table names to rows.
\<close>

type_synonym row = "(string \<times> sql_value) list"
type_synonym database = "(string \<times> row list) list"

fun words_acc :: "string \<Rightarrow> string \<Rightarrow> string list" where
  "words_acc [] w = (if w = [] then [] else [rev w])"
| "words_acc (c # cs) w =
     (if c = CHR '' '' then (if w = [] then words_acc cs [] else rev w # words_acc cs [])
      else words_acc cs (c # w))"

definition sql_words :: "string \<Rightarrow> string list" where
  "sql_words s = words_acc s []"

definition column_name :: "string \<Rightarrow> string" where
  "column_name c = (case dropWhile (\<lambda>x. x \<noteq> CHR ''.'') c of [] \<Rightarrow> c | _ # rest \<Rightarrow> rest)"

datatype sql_atom = Atom string string sql_value

fun parse_condition :: "string list \<Rightarrow> sql_value list \<Rightarrow> sql_atom list option" where
  "parse_condition [c, oper, q] [v] =
     (if q = ''?'' \<and> (oper = ''='' \<or> oper = ''>'') then Some [Atom (column_name c) oper v]
      else None)"
| "parse_condition (c # oper # q # kw # rest) (v # vs) =
     (if q = ''?'' \<and> (oper = ''='' \<or> oper = ''>'') \<and> kw = ''and''
      then (case parse_condition rest vs of
              None \<Rightarrow> None
            | Some atoms \<Rightarrow> Some (Atom (column_name c) oper v # atoms))
      else None)"
| "parse_condition _ _ = None"

fun sql_greater :: "sql_value \<Rightarrow> sql_value \<Rightarrow> bool" where
  "sql_greater (SqlTime a) (SqlTime b) = (b < a)"
| "sql_greater (SqlInt a) (SqlInt b) = (b <s a)"
| "sql_greater (SqlUint64 a) (SqlUint64 b) = (b < a)"
| "sql_greater _ _ = False"

fun atom_holds :: "row \<Rightarrow> sql_atom \<Rightarrow> bool" where
  "atom_holds r (Atom c oper v) =
     (case map_of r c of
        None \<Rightarrow> False
      | Some x \<Rightarrow> if oper = ''='' then x = v else if oper = ''>'' then sql_greater x v else False)"

fun clause_atoms :: "Clause list \<Rightarrow> sql_atom list option" where
  "clause_atoms [] = Some []"
| "clause_atoms (Where cond args # cs) =
     (case (parse_condition (sql_words cond) args, clause_atoms cs) of
        (Some atoms, Some more_atoms) \<Rightarrow> Some (atoms @ more_atoms)
      | _ \<Rightarrow> None)"
| "clause_atoms (_ # cs) = clause_atoms cs"

fun clause_tables :: "Clause list \<Rightarrow> string list" where
  "clause_tables [] = []"
| "clause_tables (From t # cs) = t # clause_tables cs"
| "clause_tables (_ # cs) = clause_tables cs"

fun clause_columns :: "Clause list \<Rightarrow> string list" where
  "clause_columns [] = []"
| "clause_columns (Select c # cs) = column_name c # clause_columns cs"
| "clause_columns (_ # cs) = clause_columns cs"

text \<open>
  Modelled from the spec: the \<^verbatim>\<open>Cursor\<close> method of the storage layer (package
  \<^verbatim>\<open>dal\<close> and its implementation) and \<^verbatim>\<open>api.NewDalCursorIterator\<close> are missing from the
  sources. The spec has the input source read "all rows matching the resource+connection
  scope", restricted by the incremental filter when there is one, and decode each row
  "by field projection". So \<open>dal_matching\<close> gives the rows of the table named after
  \<^verbatim>\<open>From\<close> on which every condition of every \<^verbatim>\<open>Where\<close> clause holds, in the order of
  the table; a condition is a conjunction of comparisons \<^verbatim>\<open>column = ?\<close> or
  \<^verbatim>\<open>column > ?\<close>, a column may carry the alias of its table, and a comparison with a
  missing (null) column does not hold. \<open>dal_Cursor\<close> projects these rows on the selected
  column, and the iterator yields them one by one.
\<close>

definition dal_matching :: "database \<Rightarrow> Clause list \<Rightarrow> Error + row list" where
  "dal_matching db clauses =
     (case clause_tables clauses of
        [t] \<Rightarrow>
          (case sql_words t of
             [] \<Rightarrow> Inl (GoError ''no table'')
           | name # _ \<Rightarrow>
               (case (map_of db name, clause_atoms clauses) of
                  (Some rows, Some atoms) \<Rightarrow> Inr (filter (\<lambda>r. list_all (atom_holds r) atoms) rows)
                | (None, _) \<Rightarrow> Inl (GoError ''no such table'')
                | (_, None) \<Rightarrow> Inl (GoError ''invalid condition'')))
      | _ \<Rightarrow> Inl (GoError ''invalid query''))"

definition dal_Cursor :: "database \<Rightarrow> Clause list \<Rightarrow> Error + sql_value option list" where
  "dal_Cursor db clauses =
     (case (clause_columns clauses, dal_matching db clauses) of
        ([c], Inr rows) \<Rightarrow> Inr (map (\<lambda>r. map_of r c) rows)
      | (_, Inl err) \<Rightarrow> Inl err
      | _ \<Rightarrow> Inl (GoError ''invalid query''))"

definition NewDalCursorIterator ::
  "sql_value option list \<Rightarrow> string \<Rightarrow> sql_value option list option \<times> Error option" where
  "NewDalCursorIterator cursor input_type = (Some cursor, None)"

definition in_scope :: "BitbucketTaskData \<Rightarrow> row \<Rightarrow> bool" where
  "in_scope data r \<longleftrightarrow>
     map_of r ''repo_id'' = Some (SqlString (Options_FullName (Options data))) \<and>
     map_of r ''connection_id'' = Some (SqlUint64 (Options_ConnectionId (Options data)))"

definition updated_after :: "Time \<Rightarrow> row \<Rightarrow> bool" where
  "updated_after since r \<longleftrightarrow>
     (case map_of r ''bitbucket_updated_at'' of Some (SqlTime t) \<Rightarrow> since < t | _ \<Rightarrow> False)"

definition table_rows :: "database \<Rightarrow> string \<Rightarrow> row list" where
  "table_rows db name = (case map_of db name of None \<Rightarrow> [] | Some rows \<Rightarrow> rows)"

subsection \<open>Scope of a run\<close>

text \<open>
  The predicates in which the properties of the iterators are stated: a row is in the
  scope of a run when its \<^verbatim>\<open>repo_id\<close> and \<^verbatim>\<open>connection_id\<close> are those of the run's
  options (\<open>in_scope\<close>, above); the incremental filter of a collector state keeps the
  rows updated after the watermark when the state is incremental and has one, and every
  row otherwise; two databases have the same scope for a run when they have the same
  tables and, in each, the same rows in the scope of the run, in the same order.
\<close>

definition incremental_filter :: "ApiCollectorStateManager \<Rightarrow> row \<Rightarrow> bool" where
  "incremental_filter collectorWithState r \<longleftrightarrow>
     (if IsIncremental collectorWithState \<and> Since collectorWithState \<noteq> None
      then updated_after (the (Since collectorWithState)) r else True)"

definition scope_atoms :: "BitbucketTaskData \<Rightarrow> sql_atom list" where
  "scope_atoms data =
     [Atom ''repo_id'' ''='' (SqlString (Options_FullName (Options data))),
      Atom ''connection_id'' ''='' (SqlUint64 (Options_ConnectionId (Options data)))]"

definition incremental_atoms :: "ApiCollectorStateManager \<Rightarrow> sql_atom list" where
  "incremental_atoms collectorWithState =
     (if IsIncremental collectorWithState \<and> Since collectorWithState \<noteq> None
      then [Atom ''bitbucket_updated_at'' ''>'' (SqlTime (the (Since collectorWithState)))]
      else [])"

definition scoped_rows ::
  "database \<Rightarrow> string \<Rightarrow> BitbucketTaskData \<Rightarrow> ApiCollectorStateManager \<Rightarrow> Error + row list" where
  "scoped_rows db name data collectorWithState =
     (case map_of db name of
        None \<Rightarrow> Inl (GoError ''no such table'')
      | Some rows \<Rightarrow>
          Inr (filter (\<lambda>r. in_scope data r \<and> incremental_filter collectorWithState r) rows))"

definition same_scope :: "BitbucketTaskData \<Rightarrow> database \<Rightarrow> database \<Rightarrow> bool" where
  "same_scope data db db' \<longleftrightarrow>
     map fst db = map fst db' \<and>
     list_all (\<lambda>name. filter (in_scope data) (table_rows db name)
                       = filter (in_scope data) (table_rows db' name)) (map fst db)"

section \<open>Inputs of the examples\<close>

text \<open>
  The concrete inputs at which the theorems below are evaluated. Where a theorem
  holds for every function of the standard library passed as a parameter, the example
  passes a small function that behaves as the library does on the inputs of the example.
\<close>

definition empty_response :: Response where
  "empty_response = \<lparr>StatusCode = 200, Body = Inr [], Request_URL = []\<rparr>"

text \<open>An envelope decoder that finds the given \<^verbatim>\<open>size\<close> in the body.\<close>

definition pagination_of_size ::
  "go_int \<Rightarrow> Response \<Rightarrow> BitbucketServerPagination \<Rightarrow> Error option \<times> BitbucketServerPagination" where
  "pagination_of_size n res body = (None, body\<lparr>Size := n\<rparr>)"

text \<open>
  \<^verbatim>\<open>Time.Format(time.RFC3339)\<close> for a time in UTC given in whole seconds since the Unix
  epoch, with a year of four digits: the civil date from the count of days, then the
  fields padded with zeros and the zone \<^verbatim>\<open>Z\<close>.
\<close>

definition pad2 :: "int \<Rightarrow> string" where
  "pad2 n = [digit_char (nat (n div 10 mod 10)), digit_char (nat (n mod 10))]"

definition pad4 :: "int \<Rightarrow> string" where
  "pad4 n = pad2 (n div 100) @ pad2 (n mod 100)"

definition civil_from_days :: "int \<Rightarrow> int \<times> int \<times> int" where
  "civil_from_days days =
     (let z = days + 719468;
          era = z div 146097;
          doe = z - era * 146097;
          yoe = (doe - doe div 1460 + doe div 36524 - doe div 146096) div 365;
          doy = doe - (365 * yoe + yoe div 4 - yoe div 100);
          mp = (5 * doy + 2) div 153;
          d = doy - (153 * mp + 2) div 5 + 1;
          m = (if mp < 10 then mp + 3 else mp - 9);
          y = yoe + era * 400 + (if m \<le> 2 then 1 else 0)
      in (y, m, d))"

definition RFC3339_UTC :: "Time \<Rightarrow> string" where
  "RFC3339_UTC t =
     (case civil_from_days (t div 86400) of
        (y, m, d) \<Rightarrow>
          (let secs = t mod 86400
           in pad4 y @ ''-'' @ pad2 m @ ''-'' @ pad2 d @ ''T'' @ pad2 (secs div 3600) @ '':''
                @ pad2 (secs mod 3600 div 60) @ '':'' @ pad2 (secs mod 60) @ ''Z''))"

text \<open>
  A URL parser and a query parser for URLs without escapes: \<^verbatim>\<open>url.Parse\<close> refuses a
  control character and a text that starts with a colon (its scheme is missing), and \<^verbatim>\<open>URL.Query\<close> splits the text between \<^verbatim>\<open>?\<close> and \<^verbatim>\<open>#\<close> at
  each \<^verbatim>\<open>&\<close> and each pair at its first \<^verbatim>\<open>=\<close>, collecting the values of a key in
  their order. A decoder of \<^verbatim>\<open>json.Unmarshal\<close> for the bodies of the examples: an object
  with the one member \<^verbatim>\<open>next\<close>, a string without escapes; anything else is reported as
  the end of a truncated input, which is what the bodies of the examples are.
\<close>

definition quote :: char where "quote = CHR 0x22"






definition next_object :: "string \<Rightarrow> string" where
  "next_object v = ''{'' @ [quote] @ ''next'' @ [quote] @ '':'' @ [quote] @ v @ [quote] @ ''}''"

definition unmarshal_next_object :: "string \<Rightarrow> string \<Rightarrow> string option \<times> string" where
  "unmarshal_next_object data message =
     (let v = takeWhile (\<lambda>c. c \<noteq> quote) (drop 9 data)
      in if data = next_object v then (None, v)
         else (Some ''unexpected end of JSON input'', message))"

definition unreadable_response :: Response where
  "unreadable_response =
     \<lparr>StatusCode = 200, Body = Inl ''unexpected EOF'',
      Request_URL = ''https://host/rest/api/1.0/projects/p/commits''\<rparr>"

definition malformed_response :: Response where
  "malformed_response =
     \<lparr>StatusCode = 200, Body = Inr ''{'',
      Request_URL = ''https://host/rest/api/1.0/projects/p/commits''\<rparr>"


text \<open>
  A database whose \<^verbatim>\<open>Cursor\<close> is the list of clauses it was given is \<open>Inr\<close>; the
  iterator made from it records the cursor and the type of the input struct.
\<close>

definition record_iterator ::
  "Clause list \<Rightarrow> string \<Rightarrow> (Clause list \<times> string) option \<times> Error option" where
  "record_iterator cursor input_type = (Some (cursor, input_type), None)"

text \<open>
  Two runs on one connection, for the repositories \<^verbatim>\<open>alpha\<close> and \<^verbatim>\<open>beta\<close>, a table of
  branches with rows of both, and a second database in which only rows of \<^verbatim>\<open>beta\<close>
  differ.
\<close>

definition data_alpha :: BitbucketTaskData where
  "data_alpha = \<lparr>Options = \<lparr>Options_ConnectionId = 1, Options_FullName = ''PROJ/repos/alpha''\<rparr>\<rparr>"

definition data_beta :: BitbucketTaskData where
  "data_beta = \<lparr>Options = \<lparr>Options_ConnectionId = 1, Options_FullName = ''PROJ/repos/beta''\<rparr>\<rparr>"

definition branch_row :: "string \<Rightarrow> string \<Rightarrow> Time \<Rightarrow> row" where
  "branch_row repo branch updated =
     [(''connection_id'', SqlUint64 1), (''repo_id'', SqlString repo),
      (''branch'', SqlString branch), (''bitbucket_updated_at'', SqlTime updated)]"

definition branches_db :: database where
  "branches_db =
     [(''_tool_bitbucket_server_branches'',
       [branch_row ''PROJ/repos/alpha'' ''main'' 1672531300,
        branch_row ''PROJ/repos/beta'' ''main'' 1672531300,
        branch_row ''PROJ/repos/alpha'' ''dev'' 1672531100])]"

definition branches_db' :: database where
  "branches_db' =
     [(''_tool_bitbucket_server_branches'',
       [branch_row ''PROJ/repos/alpha'' ''main'' 1672531300,
        branch_row ''PROJ/repos/alpha'' ''dev'' 1672531100,
        branch_row ''PROJ/repos/beta'' ''release'' 1672531400])]"

definition since_2023 :: ApiCollectorStateManager where
  "since_2023 = \<lparr>IsIncremental = True, Since = Some 1672531200\<rparr>"

definition full_run :: ApiCollectorStateManager where
  "full_run = \<lparr>IsIncremental = False, Since = Some 1672531200\<rparr>"

section \<open>Properties\<close>

subsection \<open>Total pages\<close>

lemma sint_word_of_int_small:
  "- (2 ^ 63) \<le> k \<Longrightarrow> k < 2 ^ 63 \<Longrightarrow> sint (word_of_int k :: 64 word) = k"
  by (simp add: sint_sbintrunc' signed_take_bit_int_eq_self)

lemma sdiv_nonneg: "0 \<le> s \<Longrightarrow> 0 < p \<Longrightarrow> (s::int) sdiv p = s div p"
  by (simp add: signed_divide_int_def sgn_if)

lemma smod_nonneg: "0 \<le> s \<Longrightarrow> 0 < p \<Longrightarrow> (s::int) smod p = s mod p"
  by (simp add: signed_modulo_int_def sgn_if)

lemma div_times_le:
  fixes s p :: int
  assumes "0 \<le> s" "0 < p"
  shows "s div p * p \<le> s"
proof -
  have "s = s div p * p + s mod p" by simp
  moreover have "0 \<le> s mod p" using assms(2) by simp
  ultimately show ?thesis by linarith
qed

lemma ceiling_div_mod:
  fixes s p :: int
  assumes "0 < p"
  shows "\<lceil>real_of_int s / real_of_int p\<rceil> = s div p + (if 0 < s mod p then 1 else 0)"
proof -
  have "\<lceil>real_of_int s / real_of_int p\<rceil> = - (- s div p)"
    by (rule ceiling_divide_eq_div)
  also have "\<dots> = s div p + (if 0 < s mod p then 1 else 0)"
  proof (cases "s mod p = 0")
    case True
    then have "p dvd s" by auto
    then have "- s div p = - (s div p)" by (simp add: dvd_neg_div)
    with True show ?thesis by simp
  next
    case False
    then have "\<not> p dvd s" by (simp add: dvd_eq_mod_eq_0)
    then have "- s div p = - (s div p) - 1"
      using assms False by (simp add: zdiv_zminus1_eq_if)
    moreover have "0 < s mod p" using False assms
      by (metis pos_mod_sign le_less)
    ultimately show ?thesis by simp
  qed
  finally show ?thesis .
qed

lemma go_quo_rem_nonneg:
  assumes "0 \<le>s (s :: go_int)" "0 <s p"
  shows "\<exists>q r. go_quo s p = Some q \<and> go_rem s p = Some r \<and> sint q = sint s div sint p
     \<and> sint r = sint s mod sint p"
proof -
  have s0: "0 \<le> sint s" and p0: "0 < sint p"
    using assms by (simp_all add: word_sle_eq word_sless_alt)
  have pn: "p \<noteq> 0" using p0 by auto
  have sb: "sint s < 2 ^ 63" using sint_lt [of s] by simp
  have pb: "sint p < 2 ^ 63" using sint_lt [of p] by simp
  have d0: "0 \<le> sint s div sint p" using s0 p0 by (simp add: pos_imp_zdiv_nonneg_iff)
  have "sint s div sint p * 1 \<le> sint s div sint p * sint p"
    using p0 d0 by (intro mult_left_mono) auto
  also have "\<dots> \<le> sint s" using s0 p0 by (rule div_times_le)
  finally have d1: "sint s div sint p \<le> sint s" by simp
  have m: "0 \<le> sint s mod sint p" "sint s mod sint p < sint p"
    using p0 by simp_all
  have "sint (word_of_int (sint s div sint p) :: go_int) = sint s div sint p"
    using d0 d1 sb by (intro sint_word_of_int_small) auto
  moreover have "sint (word_of_int (sint s mod sint p) :: go_int) = sint s mod sint p"
    using m pb by (intro sint_word_of_int_small) auto
  ultimately show ?thesis
    using pn s0 p0 by (simp add: go_quo_def go_rem_def sdiv_nonneg smod_nonneg)
qed

lemma sint_succ_small:
  fixes q :: go_int
  assumes "sint q + 1 < 2 ^ 63"
  shows "sint (q + 1) = sint q + 1"
proof -
  have lo: "- (2 ^ 63) \<le> sint q + 1"
    using sint_ge [of q] by simp
  have "q + 1 = word_of_int (sint q) + word_of_int 1" by simp
  also have "\<dots> = word_of_int (sint q + 1)" by (simp only: of_int_add)
  finally have "sint (q + 1) = sint (word_of_int (sint q + 1) :: go_int)" by (rule arg_cong)
  also have "\<dots> = sint q + 1" using lo assms by (rule sint_word_of_int_small)
  finally show ?thesis .
qed

lemma total_pages_value:
  fixes q r :: go_int
  assumes s0: "0 \<le> sint s" and p0: "0 < sint p"
    and sq: "sint q = sint s div sint p" and sr: "sint r = sint s mod sint p"
  shows "sint (if 0 <s r then q + 1 else q)
           = \<lceil>real_of_int (sint (s :: go_int)) / real_of_int (sint (p :: go_int))\<rceil>"
proof -
  have ceil: "\<lceil>real_of_int (sint s) / real_of_int (sint p)\<rceil>
      = sint s div sint p + (if 0 < sint s mod sint p then 1 else 0)"
    using p0 by (rule ceiling_div_mod)
  show ?thesis
  proof (cases "0 <s r")
    case False
    then have "\<not> 0 < sint s mod sint p" using sr by (simp add: word_sless_alt)
    then have "\<lceil>real_of_int (sint s) / real_of_int (sint p)\<rceil> = sint s div sint p"
      using ceil by simp
    with False sq show ?thesis by simp
  next
    case True
    then have pos: "0 < sint s mod sint p" using sr by (simp add: word_sless_alt)
    have "sint p \<noteq> 1" using pos by auto
    then have p2: "2 \<le> sint p" using p0 by simp
    have d0: "0 \<le> sint s div sint p" using s0 p0 by (simp add: pos_imp_zdiv_nonneg_iff)
    have "sint s div sint p * 2 \<le> sint s div sint p * sint p"
      using p2 d0 by (rule mult_left_mono)
    also have "\<dots> \<le> sint s" using s0 p0 by (rule div_times_le)
    finally have half: "sint s div sint p * 2 \<le> sint s" .
    have "sint s < 2 ^ 63" using sint_lt [of s] by simp
    moreover have "(1::int) < 2 ^ 63" by simp
    ultimately have "sint s div sint p + 1 < 2 ^ 63" using half d0 by linarith
    then have "sint q + 1 < 2 ^ 63" using sq by simp
    then have "sint (q + 1) = sint q + 1" by (rule sint_succ_small)
    moreover have "\<lceil>real_of_int (sint s) / real_of_int (sint p)\<rceil> = sint s div sint p + 1"
      using ceil pos by simp
    ultimately show ?thesis using True sq by simp
  qed
qed

text \<open>
  Claim C3. When the envelope decodes, \<^verbatim>\<open>Size\<close> is not negative and \<^verbatim>\<open>PageSize\<close> is
  positive, \<^verbatim>\<open>GetTotalPagesFromResponse\<close> returns with the nil error the quotient of
  \<^verbatim>\<open>Size\<close> by \<^verbatim>\<open>PageSize\<close> rounded up; the increment of the 64-bit count never wraps.
\<close>

theorem GetTotalPagesFromResponse_rounds_up:
  assumes "api_UnmarshalResponse res zero_BitbucketServerPagination = (None, body)"
    and "0 \<le>s Size body" and "0 <s PageSize args"
  shows "\<exists>pages. GetTotalPagesFromResponse api_UnmarshalResponse res args = Returned (pages, None)
           \<and> sint pages = \<lceil>real_of_int (sint (Size body)) / real_of_int (sint (PageSize args))\<rceil>"
proof -
  obtain q r where q: "go_quo (Size body) (PageSize args) = Some q"
    and r: "go_rem (Size body) (PageSize args) = Some r"
    and sq: "sint q = sint (Size body) div sint (PageSize args)"
    and sr: "sint r = sint (Size body) mod sint (PageSize args)"
    using go_quo_rem_nonneg [OF assms(2,3)] by blast
  have p0: "0 < sint (PageSize args)" using assms(3) by (simp add: word_sless_alt)
  have s0: "0 \<le> sint (Size body)" using assms(2) by (simp add: word_sle_eq)
  have run: "GetTotalPagesFromResponse api_UnmarshalResponse res args
      = Returned (if 0 <s r then q + 1 else q, None)"
    unfolding GetTotalPagesFromResponse_def
    by (simp only: assms(1) q r prod.case option.case)
  have "sint (if 0 <s r then q + 1 else q)
      = \<lceil>real_of_int (sint (Size body)) / real_of_int (sint (PageSize args))\<rceil>"
    using s0 p0 sq sr by (rule total_pages_value)
  with run show ?thesis by blast
qed

lemma total_pages_examples:
  "GetTotalPagesFromResponse (pagination_of_size 250) empty_response \<lparr>PageSize = 100\<rparr>
     = Returned (3, None)"
  "GetTotalPagesFromResponse (pagination_of_size 300) empty_response \<lparr>PageSize = 100\<rparr>
     = Returned (3, None)"
  "GetTotalPagesFromResponse (pagination_of_size 0) empty_response \<lparr>PageSize = 100\<rparr>
     = Returned (0, None)"
  by (simp_all add: GetTotalPagesFromResponse_def pagination_of_size_def go_quo_def go_rem_def
      signed_divide_int_def signed_modulo_int_def word_sless_alt)

theorem GetTotalPagesFromResponse_rounds_up_witness:
  "pagination_of_size 250 empty_response zero_BitbucketServerPagination
     = (None, zero_BitbucketServerPagination\<lparr>Size := 250\<rparr>)
   \<and> 0 \<le>s Size (zero_BitbucketServerPagination\<lparr>Size := 250\<rparr>)
   \<and> 0 <s PageSize \<lparr>PageSize = 100\<rparr>
   \<and> (\<exists>pages. GetTotalPagesFromResponse (pagination_of_size 250) empty_response \<lparr>PageSize = 100\<rparr>
          = Returned (pages, None) \<and> sint pages = 3)"
proof -
  have a: "pagination_of_size 250 empty_response zero_BitbucketServerPagination
      = (None, zero_BitbucketServerPagination\<lparr>Size := 250\<rparr>)"
    by (simp add: pagination_of_size_def)
  have b: "0 \<le>s Size (zero_BitbucketServerPagination\<lparr>Size := 250\<rparr>)"
    by (simp add: word_sle_eq)
  have c: "0 <s PageSize \<lparr>PageSize = 100\<rparr>"
    by (simp add: word_sless_alt)
  have "\<lceil>real_of_int 250 / real_of_int 100\<rceil> = (3::int)"
    by (simp add: ceiling_divide_eq_div)
  then show ?thesis
    using GetTotalPagesFromResponse_rounds_up
            [of "pagination_of_size 250" empty_response
                "zero_BitbucketServerPagination\<lparr>Size := 250\<rparr>" "\<lparr>PageSize = 100\<rparr>", OF a b c]
          a b c
    by simp
qed


subsection \<open>Status classification\<close>

text \<open>
  Claim C2, as amended. \<^verbatim>\<open>ignoreHTTPStatus404\<close> gives the authentication error exactly
  on status 401, the ignore-and-continue signal exactly on status 404, and the nil error
  on every other status, the non-success ones (any 5xx) included: it reports no generic
  failure of its own.
\<close>

theorem ignoreHTTPStatus404_classification:
  "(ignoreHTTPStatus404 res
      = Some (Unauthorized_New ''authentication failed, please check your AccessToken''))
     = (StatusCode res = 401)
   \<and> (ignoreHTTPStatus404 res = Some ErrIgnoreAndContinue) = (StatusCode res = 404)
   \<and> (ignoreHTTPStatus404 res = None) = (StatusCode res \<noteq> 401 \<and> StatusCode res \<noteq> 404)"
  by (simp add: ignoreHTTPStatus404_def)

text \<open>
  Claim C2 as stated fails: on status 500 the classifier returns the nil error, not a
  request failure.
\<close>

theorem ignoreHTTPStatus404_500_counterexample:
  "ignoreHTTPStatus404 \<lparr>StatusCode = 500, Body = Inr [], Request_URL = []\<rparr> = None"
  by (simp add: ignoreHTTPStatus404_def)

subsection \<open>The base query\<close>

text \<open>
  Claim C8. For every page descriptor \<^verbatim>\<open>GetQuery\<close> returns with the nil error a query
  whose keys are exactly \<^verbatim>\<open>state\<close>, \<^verbatim>\<open>page\<close> and \<^verbatim>\<open>pagelen\<close>, bound to \<^verbatim>\<open>all\<close>, the
  decimal form of the current page and the decimal form of the page size.
\<close>

theorem GetQuery_total:
  "\<exists>query. GetQuery reqData = (query, None)
      \<and> dom query = {''state'', ''page'', ''pagelen''}
      \<and> query ''state'' = Some [''all'']
      \<and> query ''page'' = Some [Sprintf_v (Pager_Page (Pager reqData))]
      \<and> query ''pagelen'' = Some [Sprintf_v (Pager_Size (Pager reqData))]"
  by (auto simp add: GetQuery_def Values_Set_def Let_def)

subsection \<open>A missing response\<close>

text \<open>
  Claim C9. On a nil response \<^verbatim>\<open>decodeResponse\<close> returns the error "res is nil" and
  leaves the message as it was, and both of its callers return that error with a nil
  value; the error is an ordinary one, not one of the two signals.
\<close>

theorem decodeResponse_nil_response:
  "decodeResponse json_Unmarshal None message = (Some (Default_New ''res is nil''), message)
   \<and> GetNextPageCustomData json_Unmarshal_Next url_Parse URL_Query None
        = Returned (None, Some (Default_New ''res is nil''))
   \<and> GetRawMessageFromResponse json_Unmarshal_Values None
        = (None, Some (Default_New ''res is nil''))
   \<and> \<not> is_signal (Default_New ''res is nil'')"
  by (simp add: decodeResponse_def GetNextPageCustomData_def GetRawMessageFromResponse_def)


subsection \<open>The incremental query\<close>

lemma RFC3339_UTC_2023: "RFC3339_UTC 1672531200 = ''2023-01-01T00:00:00Z''"
  by code_simp

text \<open>
  Claim C1, as amended. The query of \<^verbatim>\<open>GetQueryCreatedAndUpdated\<close> always binds
  \<^verbatim>\<open>sort\<close> to \<^verbatim>\<open>created_on\<close> and \<^verbatim>\<open>fields\<close> to the given projection, and it binds \<^verbatim>\<open>q\<close>
  to \<^verbatim>\<open>updated_on>=\<close> followed by the formatted watermark exactly when a watermark
  exists; the flag \<^verbatim>\<open>IsIncremental\<close> has no part in it.
\<close>

theorem GetQueryCreatedAndUpdated_filter:
  "\<exists>query. GetQueryCreatedAndUpdated Format_RFC3339 fields' collectorWithState reqData = (query, None)
      \<and> query ''q''
          = map_option (\<lambda>since. [''updated_on>='' @ Format_RFC3339 since]) (Since collectorWithState)
      \<and> query ''sort'' = Some [''created_on'']
      \<and> query ''fields'' = Some [fields']
      \<and> GetQueryCreatedAndUpdated Format_RFC3339 fields'
           (collectorWithState\<lparr>IsIncremental := b\<rparr>) reqData = (query, None)"
  by (cases "Since collectorWithState")
     (simp_all add: GetQueryCreatedAndUpdated_def GetQuery_def Values_Set_def Let_def)

text \<open>
  Claim C1 as stated fails: with \<^verbatim>\<open>IsIncremental\<close> false and the watermark
  2023-01-01T00:00:00Z the query still carries the filter \<^verbatim>\<open>q\<close>.
\<close>

theorem GetQueryCreatedAndUpdated_not_incremental_counterexample:
  "fst (GetQueryCreatedAndUpdated RFC3339_UTC ''values.id''
          \<lparr>IsIncremental = False, Since = Some 1672531200\<rparr>
          \<lparr>Pager = \<lparr>Pager_Page = 1, Pager_Size = 100\<rparr>\<rparr>) ''q''
     = Some [''updated_on>=2023-01-01T00:00:00Z'']"
  by (simp add: GetQueryCreatedAndUpdated_def GetQuery_def Values_Set_def Let_def RFC3339_UTC_2023)

lemma GetQueryCreatedAndUpdated_examples:
  "fst (GetQueryCreatedAndUpdated RFC3339_UTC ''values.id''
          \<lparr>IsIncremental = True, Since = Some 1672531200\<rparr>
          \<lparr>Pager = \<lparr>Pager_Page = 1, Pager_Size = 100\<rparr>\<rparr>) ''q''
     = Some [''updated_on>=2023-01-01T00:00:00Z'']"
  "fst (GetQueryCreatedAndUpdated RFC3339_UTC ''values.id''
          \<lparr>IsIncremental = True, Since = None\<rparr>
          \<lparr>Pager = \<lparr>Pager_Page = 1, Pager_Size = 100\<rparr>\<rparr>) ''q'' = None"
  by (simp_all add: GetQueryCreatedAndUpdated_def GetQuery_def Values_Set_def Let_def
      RFC3339_UTC_2023)


subsection \<open>Decode failures\<close>

lemma sublist_middle: "sublist xs (ps @ xs @ ss)"
  by (auto simp: sublist_def)

text \<open>
  Claim C7. When the body of a response cannot be read, or \<^verbatim>\<open>json.Unmarshal\<close> reports an
  error on it, \<^verbatim>\<open>decodeResponse\<close> returns an error, never nil: a wrapped error whose
  message contains the text of the request URL and, when the body was read, the raw body.
\<close>

theorem decodeResponse_failure_reported:
  assumes "Body r = Inl err
     \<or> (\<exists>resBody e. Body r = Inr resBody \<and> fst (json_Unmarshal resBody message) = Some e)"
  shows "\<exists>cause msg. fst (decodeResponse json_Unmarshal (Some r) message)
             = Some (Default_Wrap cause msg)
           \<and> sublist (Request_URL r) msg
           \<and> (case Body r of Inl _ \<Rightarrow> True | Inr resBody \<Rightarrow> sublist resBody msg)"
  using assms
proof
  assume "Body r = Inl err"
  then have "fst (decodeResponse json_Unmarshal (Some r) message)
      = Some (Default_Wrap (GoError err) (''error reading response from '' @ Request_URL r @ []))"
    by (simp add: decodeResponse_def)
  moreover have "sublist (Request_URL r) (''error reading response from '' @ Request_URL r @ [])"
    by (rule sublist_middle)
  ultimately show ?thesis using \<open>Body r = Inl err\<close> by auto
next
  assume "\<exists>resBody e. Body r = Inr resBody \<and> fst (json_Unmarshal resBody message) = Some e"
  then obtain resBody e where b: "Body r = Inr resBody"
    and e: "fst (json_Unmarshal resBody message) = Some e" by blast
  let ?msg = "''error decoding response from '' @ Request_URL r @ '': raw response: '' @ resBody"
  have "fst (decodeResponse json_Unmarshal (Some r) message)
      = Some (Default_Wrap (Convert (GoError e)) ?msg)"
    using b e by (cases "json_Unmarshal resBody message")
      (simp add: decodeResponse_def errors_Convert_def)
  moreover have "sublist (Request_URL r) ?msg"
    by (rule sublist_middle)
  moreover have "sublist resBody ((''error decoding response from '' @ Request_URL r
      @ '': raw response: '') @ resBody @ [])"
    by (rule sublist_middle)
  then have "sublist resBody ?msg" by simp
  ultimately show ?thesis using b by auto
qed

theorem decodeResponse_failure_reported_witness:
  "(Body unreadable_response = Inl ''unexpected EOF'')
   \<and> fst (decodeResponse unmarshal_next_object (Some unreadable_response) [])
       = Some (Default_Wrap (GoError ''unexpected EOF'')
           ''error reading response from https://host/rest/api/1.0/projects/p/commits'')
   \<and> (Body malformed_response = Inr ''{''
        \<and> fst (unmarshal_next_object ''{'' []) = Some ''unexpected end of JSON input'')
   \<and> (\<exists>cause msg. fst (decodeResponse unmarshal_next_object (Some malformed_response) [])
             = Some (Default_Wrap cause msg)
           \<and> sublist (Request_URL malformed_response) msg
           \<and> sublist ''{'' msg)"
proof -
  have h: "Body malformed_response = Inl []
     \<or> (\<exists>resBody e. Body malformed_response = Inr resBody
           \<and> fst (unmarshal_next_object resBody []) = Some e)"
    by (simp add: malformed_response_def unmarshal_next_object_def next_object_def quote_def)
  have b: "Body malformed_response = Inr ''{''"
    by (simp add: malformed_response_def)
  have u: "fst (unmarshal_next_object ''{'' []) = Some ''unexpected end of JSON input''"
    by (simp add: unmarshal_next_object_def next_object_def quote_def)
  have r: "fst (decodeResponse unmarshal_next_object (Some unreadable_response) [])
       = Some (Default_Wrap (GoError ''unexpected EOF'')
           ''error reading response from https://host/rest/api/1.0/projects/p/commits'')"
    by (simp add: decodeResponse_def unreadable_response_def)
  have "Body unreadable_response = Inl ''unexpected EOF''"
    by (simp add: unreadable_response_def)
  then show ?thesis
    using decodeResponse_failure_reported
            [of malformed_response "[]" unmarshal_next_object "[]", OF h] b u r
    by simp
qed


subsection \<open>The cursor\<close>


text \<open>
  Claim C10. The index into the values of \<^verbatim>\<open>page\<close> is not guarded:
  \<^verbatim>\<open>GetNextPageCustomData\<close> panics exactly when the response decodes with a \<^verbatim>\<open>Next\<close> that is
  not empty and parses as a URL whose query has no value for \<^verbatim>\<open>page\<close>. In every other
  case it returns.
\<close>

theorem GetNextPageCustomData_panics_iff:
  "(\<exists>msg. GetNextPageCustomData json_Unmarshal url_Parse URL_Query prevPageResponse = Panicked msg)
     = (\<exists>next' u. decodeResponse json_Unmarshal prevPageResponse [] = (None, next')
          \<and> next' \<noteq> [] \<and> url_Parse next' = Inr u \<and> Values_index (URL_Query u) ''page'' = [])"
proof -
  obtain err n where d: "decodeResponse json_Unmarshal prevPageResponse [] = (err, n)"
    by (cases "decodeResponse json_Unmarshal prevPageResponse []")
  show ?thesis
  proof (cases err)
    case (Some e)
    then show ?thesis using d by (simp add: GetNextPageCustomData_def)
  next
    case None
    show ?thesis
    proof (cases "n = []")
      case True
      then show ?thesis using d None by (simp add: GetNextPageCustomData_def)
    next
      case False
      then show ?thesis using d None
        by (auto simp add: GetNextPageCustomData_def split: sum.splits list.splits)
    qed
  qed
qed






subsection \<open>Input iterators\<close>

lemma scope_words:
  "sql_words ''bb.repo_id = ? and bb.connection_id = ?''
     = [''bb.repo_id'', ''='', ''?'', ''and'', ''bb.connection_id'', ''='', ''?'']"
  "sql_words ''bc.repo_id = ? and bc.connection_id = ?''
     = [''bc.repo_id'', ''='', ''?'', ''and'', ''bc.connection_id'', ''='', ''?'']"
  "sql_words ''bpr.repo_id = ? and bpr.connection_id = ?''
     = [''bpr.repo_id'', ''='', ''?'', ''and'', ''bpr.connection_id'', ''='', ''?'']"
  "sql_words ''bitbucket_updated_at > ?'' = [''bitbucket_updated_at'', ''>'', ''?'']"
  by (simp_all add: sql_words_def)

lemma table_words:
  "sql_words ''_tool_bitbucket_server_branches bb'' = [''_tool_bitbucket_server_branches'', ''bb'']"
  "sql_words ''_tool_bitbucket_server_commits bc'' = [''_tool_bitbucket_server_commits'', ''bc'']"
  "sql_words ''_tool_bitbucket_server_pull_requests bpr''
     = [''_tool_bitbucket_server_pull_requests'', ''bpr'']"
  by (simp_all add: sql_words_def)

lemma column_names:
  "column_name ''bb.repo_id'' = ''repo_id''" "column_name ''bb.connection_id'' = ''connection_id''"
  "column_name ''bc.repo_id'' = ''repo_id''" "column_name ''bc.connection_id'' = ''connection_id''"
  "column_name ''bpr.repo_id'' = ''repo_id''" "column_name ''bpr.connection_id'' = ''connection_id''"
  "column_name ''bitbucket_updated_at'' = ''bitbucket_updated_at''"
  "column_name ''bb.branch'' = ''branch''" "column_name ''bc.commit_sha'' = ''commit_sha''"
  "column_name ''bpr.bitbucket_id'' = ''bitbucket_id''"
  by (simp_all add: column_name_def)

lemma scope_atoms_hold:
  "list_all (atom_holds r)
     [Atom ''repo_id'' ''='' (SqlString full), Atom ''connection_id'' ''='' (SqlUint64 conn)]
   \<longleftrightarrow> map_of r ''repo_id'' = Some (SqlString full)
       \<and> map_of r ''connection_id'' = Some (SqlUint64 conn)"
  by (auto split: option.splits)

lemma updated_atom_holds:
  "atom_holds r (Atom ''bitbucket_updated_at'' ''>'' (SqlTime since)) \<longleftrightarrow> updated_after since r"
proof (cases "map_of r ''bitbucket_updated_at''")
  case None
  then show ?thesis by (simp add: updated_after_def)
next
  case (Some x)
  then show ?thesis by (cases x) (simp_all add: updated_after_def)
qed

lemma scope_atoms_in_scope: "list_all (atom_holds r) (scope_atoms data) \<longleftrightarrow> in_scope data r"
  unfolding scope_atoms_def in_scope_def by (rule scope_atoms_hold)

lemma incremental_atoms_filter:
  "list_all (atom_holds r) (incremental_atoms cws) \<longleftrightarrow> incremental_filter cws r"
  by (auto simp add: incremental_atoms_def incremental_filter_def updated_atom_holds
      simp del: atom_holds.simps)

lemma iterator_atoms:
  "clause_atoms (GetBranchesIterator_clauses data cws) = Some (scope_atoms data @ incremental_atoms cws)"
  "clause_atoms (GetCommitsIterator_clauses data cws) = Some (scope_atoms data @ incremental_atoms cws)"
  "clause_atoms (GetPullRequestsIterator_clauses data cws)
     = Some (scope_atoms data @ incremental_atoms cws)"
  by (simp_all add: GetBranchesIterator_clauses_def GetCommitsIterator_clauses_def
      GetPullRequestsIterator_clauses_def scope_words column_names scope_atoms_def
      incremental_atoms_def Let_def)

lemma iterator_tables:
  "clause_tables (GetBranchesIterator_clauses data cws) = [''_tool_bitbucket_server_branches bb'']"
  "clause_tables (GetCommitsIterator_clauses data cws) = [''_tool_bitbucket_server_commits bc'']"
  "clause_tables (GetPullRequestsIterator_clauses data cws)
     = [''_tool_bitbucket_server_pull_requests bpr'']"
  by (simp_all add: GetBranchesIterator_clauses_def GetCommitsIterator_clauses_def
      GetPullRequestsIterator_clauses_def Let_def)

lemma iterator_columns:
  "clause_columns (GetBranchesIterator_clauses data cws) = [''branch'']"
  "clause_columns (GetCommitsIterator_clauses data cws) = [''commit_sha'']"
  "clause_columns (GetPullRequestsIterator_clauses data cws) = [''bitbucket_id'']"
  by (simp_all add: GetBranchesIterator_clauses_def GetCommitsIterator_clauses_def
      GetPullRequestsIterator_clauses_def column_names Let_def)

lemma iterator_rows:
  "dal_matching db (GetBranchesIterator_clauses data cws)
     = scoped_rows db ''_tool_bitbucket_server_branches'' data cws"
  "dal_matching db (GetCommitsIterator_clauses data cws)
     = scoped_rows db ''_tool_bitbucket_server_commits'' data cws"
  "dal_matching db (GetPullRequestsIterator_clauses data cws)
     = scoped_rows db ''_tool_bitbucket_server_pull_requests'' data cws"
  by (simp_all add: dal_matching_def iterator_tables table_words iterator_atoms scoped_rows_def
      scope_atoms_in_scope incremental_atoms_filter split: option.splits)

lemma iterator_clauses_incremental:
  "(Where ''bitbucket_updated_at > ?'' [SqlTime t] \<in> set (GetBranchesIterator_clauses data cws))
     = (IsIncremental cws \<and> Since cws = Some t)
   \<and> (Where ''bitbucket_updated_at > ?'' [SqlTime t] \<in> set (GetCommitsIterator_clauses data cws))
     = (IsIncremental cws \<and> Since cws = Some t)
   \<and> (Where ''bitbucket_updated_at > ?'' [SqlTime t] \<in> set (GetPullRequestsIterator_clauses data cws))
     = (IsIncremental cws \<and> Since cws = Some t)
   \<and> (GetBranchesIterator_clauses data cws
        = GetBranchesIterator_clauses data \<lparr>IsIncremental = False, Since = None\<rparr>)
     = (\<not> (IsIncremental cws \<and> Since cws \<noteq> None))
   \<and> (GetCommitsIterator_clauses data cws
        = GetCommitsIterator_clauses data \<lparr>IsIncremental = False, Since = None\<rparr>)
     = (\<not> (IsIncremental cws \<and> Since cws \<noteq> None))
   \<and> (GetPullRequestsIterator_clauses data cws
        = GetPullRequestsIterator_clauses data \<lparr>IsIncremental = False, Since = None\<rparr>)
     = (\<not> (IsIncremental cws \<and> Since cws \<noteq> None))"
  by (auto simp add: GetBranchesIterator_clauses_def GetCommitsIterator_clauses_def
      GetPullRequestsIterator_clauses_def Let_def)

text \<open>
  Claim C5. Each of the three constructors hands to the \<^verbatim>\<open>Cursor\<close> of the database the
  three clauses of the base query of the scope, followed by the clause
  \<^verbatim>\<open>bitbucket_updated_at > ?\<close> bound to the watermark exactly when \<^verbatim>\<open>IsIncremental\<close> is true
  and the watermark is set, and wraps the cursor with the type of its input struct; an
  error of the cursor is returned as it is. On the storage layer the seeds are then the
  selected column of the rows of the scope that were updated strictly after the
  watermark in that case, and of all the rows of the scope in every other case.
\<close>

theorem iterators_incremental_restriction:
  "GetBranchesIterator Inr record_iterator data cws
     = (Some ([Select ''bb.branch'', From ''_tool_bitbucket_server_branches bb'',
               Where ''bb.repo_id = ? and bb.connection_id = ?''
                 [SqlString (Options_FullName (Options data)),
                  SqlUint64 (Options_ConnectionId (Options data))]]
              @ (if IsIncremental cws \<and> Since cws \<noteq> None
                 then [Where ''bitbucket_updated_at > ?'' [SqlTime (the (Since cws))]] else []),
              ''BitbucketServerBranchInput''), None)
   \<and> GetCommitsIterator Inr record_iterator data cws
     = (Some ([Select ''bc.commit_sha'', From ''_tool_bitbucket_server_commits bc'',
               Where ''bc.repo_id = ? and bc.connection_id = ?''
                 [SqlString (Options_FullName (Options data)),
                  SqlUint64 (Options_ConnectionId (Options data))]]
              @ (if IsIncremental cws \<and> Since cws \<noteq> None
                 then [Where ''bitbucket_updated_at > ?'' [SqlTime (the (Since cws))]] else []),
              ''BitbucketServerCommitInput''), None)
   \<and> GetPullRequestsIterator Inr record_iterator data cws
     = (Some ([Select ''bpr.bitbucket_id'', From ''_tool_bitbucket_server_pull_requests bpr'',
               Where ''bpr.repo_id = ? and bpr.connection_id = ?''
                 [SqlString (Options_FullName (Options data)),
                  SqlUint64 (Options_ConnectionId (Options data))]]
              @ (if IsIncremental cws \<and> Since cws \<noteq> None
                 then [Where ''bitbucket_updated_at > ?'' [SqlTime (the (Since cws))]] else []),
              ''BitbucketServerInput''), None)
   \<and> GetBranchesIterator (\<lambda>clauses. Inl err) new_iterator data cws = (None, Some err)
   \<and> GetCommitsIterator (\<lambda>clauses. Inl err) new_iterator data cws = (None, Some err)
   \<and> GetPullRequestsIterator (\<lambda>clauses. Inl err) new_iterator data cws = (None, Some err)
   \<and> GetBranchesIterator (dal_Cursor db) NewDalCursorIterator data cws
     = (case map_of db ''_tool_bitbucket_server_branches'' of
          None \<Rightarrow> (None, Some (GoError ''no such table''))
        | Some rows \<Rightarrow>
            (Some (map (\<lambda>r. map_of r ''branch'')
                     (filter (\<lambda>r. in_scope data r \<and> incremental_filter cws r) rows)), None))
   \<and> GetCommitsIterator (dal_Cursor db) NewDalCursorIterator data cws
     = (case map_of db ''_tool_bitbucket_server_commits'' of
          None \<Rightarrow> (None, Some (GoError ''no such table''))
        | Some rows \<Rightarrow>
            (Some (map (\<lambda>r. map_of r ''commit_sha'')
                     (filter (\<lambda>r. in_scope data r \<and> incremental_filter cws r) rows)), None))
   \<and> GetPullRequestsIterator (dal_Cursor db) NewDalCursorIterator data cws
     = (case map_of db ''_tool_bitbucket_server_pull_requests'' of
          None \<Rightarrow> (None, Some (GoError ''no such table''))
        | Some rows \<Rightarrow>
            (Some (map (\<lambda>r. map_of r ''bitbucket_id'')
                     (filter (\<lambda>r. in_scope data r \<and> incremental_filter cws r) rows)), None))"
proof -
  have recorded:
    "GetBranchesIterator Inr record_iterator data cws
       = (Some (GetBranchesIterator_clauses data cws, ''BitbucketServerBranchInput''), None)"
    "GetCommitsIterator Inr record_iterator data cws
       = (Some (GetCommitsIterator_clauses data cws, ''BitbucketServerCommitInput''), None)"
    "GetPullRequestsIterator Inr record_iterator data cws
       = (Some (GetPullRequestsIterator_clauses data cws, ''BitbucketServerInput''), None)"
    by (simp_all add: GetBranchesIterator_def GetCommitsIterator_def GetPullRequestsIterator_def
        open_iterator_def record_iterator_def)
  have failed:
    "GetBranchesIterator (\<lambda>clauses. Inl err) new_iterator data cws = (None, Some err)"
    "GetCommitsIterator (\<lambda>clauses. Inl err) new_iterator data cws = (None, Some err)"
    "GetPullRequestsIterator (\<lambda>clauses. Inl err) new_iterator data cws = (None, Some err)"
    by (simp_all add: GetBranchesIterator_def GetCommitsIterator_def GetPullRequestsIterator_def
        open_iterator_def)
  have seeds:
    "GetBranchesIterator (dal_Cursor db) NewDalCursorIterator data cws
       = (case map_of db ''_tool_bitbucket_server_branches'' of
            None \<Rightarrow> (None, Some (GoError ''no such table''))
          | Some rows \<Rightarrow>
              (Some (map (\<lambda>r. map_of r ''branch'')
                       (filter (\<lambda>r. in_scope data r \<and> incremental_filter cws r) rows)), None))"
    "GetCommitsIterator (dal_Cursor db) NewDalCursorIterator data cws
       = (case map_of db ''_tool_bitbucket_server_commits'' of
            None \<Rightarrow> (None, Some (GoError ''no such table''))
          | Some rows \<Rightarrow>
              (Some (map (\<lambda>r. map_of r ''commit_sha'')
                       (filter (\<lambda>r. in_scope data r \<and> incremental_filter cws r) rows)), None))"
    "GetPullRequestsIterator (dal_Cursor db) NewDalCursorIterator data cws
       = (case map_of db ''_tool_bitbucket_server_pull_requests'' of
            None \<Rightarrow> (None, Some (GoError ''no such table''))
          | Some rows \<Rightarrow>
              (Some (map (\<lambda>r. map_of r ''bitbucket_id'')
                       (filter (\<lambda>r. in_scope data r \<and> incremental_filter cws r) rows)), None))"
    by (simp_all add: GetBranchesIterator_def GetCommitsIterator_def GetPullRequestsIterator_def
        open_iterator_def dal_Cursor_def iterator_columns iterator_rows scoped_rows_def
        NewDalCursorIterator_def split: option.splits)
  have clauses:
    "GetBranchesIterator_clauses data cws
       = [Select ''bb.branch'', From ''_tool_bitbucket_server_branches bb'',
          Where ''bb.repo_id = ? and bb.connection_id = ?''
            [SqlString (Options_FullName (Options data)),
             SqlUint64 (Options_ConnectionId (Options data))]]
         @ (if IsIncremental cws \<and> Since cws \<noteq> None
            then [Where ''bitbucket_updated_at > ?'' [SqlTime (the (Since cws))]] else [])"
    "GetCommitsIterator_clauses data cws
       = [Select ''bc.commit_sha'', From ''_tool_bitbucket_server_commits bc'',
          Where ''bc.repo_id = ? and bc.connection_id = ?''
            [SqlString (Options_FullName (Options data)),
             SqlUint64 (Options_ConnectionId (Options data))]]
         @ (if IsIncremental cws \<and> Since cws \<noteq> None
            then [Where ''bitbucket_updated_at > ?'' [SqlTime (the (Since cws))]] else [])"
    "GetPullRequestsIterator_clauses data cws
       = [Select ''bpr.bitbucket_id'', From ''_tool_bitbucket_server_pull_requests bpr'',
          Where ''bpr.repo_id = ? and bpr.connection_id = ?''
            [SqlString (Options_FullName (Options data)),
             SqlUint64 (Options_ConnectionId (Options data))]]
         @ (if IsIncremental cws \<and> Since cws \<noteq> None
            then [Where ''bitbucket_updated_at > ?'' [SqlTime (the (Since cws))]] else [])"
    by (simp_all add: GetBranchesIterator_clauses_def GetCommitsIterator_clauses_def
        GetPullRequestsIterator_clauses_def Let_def)
  show ?thesis
    unfolding recorded clauses [symmetric] failed seeds by simp
qed

theorem iterators_incremental_restriction_witness:
  "GetBranchesIterator (dal_Cursor branches_db) NewDalCursorIterator data_alpha since_2023
     = (Some [Some (SqlString ''main'')], None)
   \<and> GetBranchesIterator (dal_Cursor branches_db) NewDalCursorIterator data_alpha full_run
     = (Some [Some (SqlString ''main''), Some (SqlString ''dev'')], None)
   \<and> GetBranchesIterator Inr record_iterator data_alpha since_2023
     = (Some ([Select ''bb.branch'', From ''_tool_bitbucket_server_branches bb'',
               Where ''bb.repo_id = ? and bb.connection_id = ?''
                 [SqlString ''PROJ/repos/alpha'', SqlUint64 1],
               Where ''bitbucket_updated_at > ?'' [SqlTime 1672531200]],
              ''BitbucketServerBranchInput''), None)
   \<and> GetBranchesIterator Inr record_iterator data_alpha full_run
     = (Some ([Select ''bb.branch'', From ''_tool_bitbucket_server_branches bb'',
               Where ''bb.repo_id = ? and bb.connection_id = ?''
                 [SqlString ''PROJ/repos/alpha'', SqlUint64 1]],
              ''BitbucketServerBranchInput''), None)"
  using iterators_incremental_restriction
          [where data = data_alpha and cws = since_2023 and db = branches_db
             and err = "GoError []" and new_iterator = NewDalCursorIterator]
        iterators_incremental_restriction
          [where data = data_alpha and cws = full_run and db = branches_db
             and err = "GoError []" and new_iterator = NewDalCursorIterator]
  by (simp add: branches_db_def branch_row_def in_scope_def incremental_filter_def
      updated_after_def data_alpha_def since_2023_def full_run_def)

lemma scoped_rows_in_scope:
  "scoped_rows db name data cws = Inr rows \<Longrightarrow> r \<in> set rows \<Longrightarrow> in_scope data r"
  by (auto simp add: scoped_rows_def split: option.splits)

lemma scoped_rows_same_scope:
  assumes "same_scope data db db'"
  shows "scoped_rows db name data cws = scoped_rows db' name data cws"
proof -
  have names: "fst ` set db = fst ` set db'"
    using assms unfolding same_scope_def by (metis set_map)
  show ?thesis
  proof (cases "map_of db name")
    case None
    then have "name \<notin> fst ` set db" by (simp add: map_of_eq_None_iff)
    then have "name \<notin> fst ` set db'" using names by simp
    then have "map_of db' name = None" by (simp add: map_of_eq_None_iff)
    with None show ?thesis by (simp add: scoped_rows_def)
  next
    case (Some rows)
    then have mem: "name \<in> fst ` set db"
      by (metis map_of_eq_None_iff option.distinct(1))
    then have "name \<in> fst ` set db'" using names by simp
    then obtain rows' where Some': "map_of db' name = Some rows'"
      by (metis map_of_eq_None_iff not_Some_eq)
    have "filter (in_scope data) (table_rows db name) = filter (in_scope data) (table_rows db' name)"
      using assms mem by (auto simp add: same_scope_def list_all_iff)
    then have eq: "filter (in_scope data) rows = filter (in_scope data) rows'"
      using Some Some' by (simp add: table_rows_def)
    have "filter (\<lambda>r. in_scope data r \<and> incremental_filter cws r) rows
        = filter (incremental_filter cws) (filter (in_scope data) rows)"
      by (simp add: conj_commute)
    also have "\<dots> = filter (incremental_filter cws) (filter (in_scope data) rows')"
      by (simp only: eq)
    also have "\<dots> = filter (\<lambda>r. in_scope data r \<and> incremental_filter cws r) rows'"
      by (simp add: conj_commute)
    finally show ?thesis using Some Some' by (simp add: scoped_rows_def)
  qed
qed

lemma in_scope_same_options:
  "in_scope data1 r \<Longrightarrow> in_scope data2 r \<Longrightarrow>
   Options_FullName (Options data1) = Options_FullName (Options data2)
   \<and> Options_ConnectionId (Options data1) = Options_ConnectionId (Options data2)"
  by (simp add: in_scope_def)

lemma iterator_clauses_rows:
  assumes "clauses \<in> {GetBranchesIterator_clauses data cws, GetCommitsIterator_clauses data cws,
                      GetPullRequestsIterator_clauses data cws}"
  shows "\<exists>name. dal_matching db clauses = scoped_rows db name data cws"
  using assms by (auto simp add: iterator_rows)

lemma iterator_cursor_same_scope:
  assumes "same_scope data db db'"
    and "clauses \<in> {GetBranchesIterator_clauses data cws, GetCommitsIterator_clauses data cws,
                      GetPullRequestsIterator_clauses data cws}"
  shows "dal_Cursor db clauses = dal_Cursor db' clauses"
proof -
  have "dal_matching db clauses = dal_matching db' clauses"
    using assms(2) scoped_rows_same_scope [OF assms(1)] by (auto simp add: iterator_rows)
  then show ?thesis by (simp add: dal_Cursor_def)
qed

text \<open>
  Claim C6. Take two runs whose options differ in \<^verbatim>\<open>FullName\<close> or in \<^verbatim>\<open>ConnectionId\<close>,
  each with the clauses of one of its iterators. Every row a run reads is in its own
  scope, so no row is read by both; and a database that differs from the first run's
  only outside that run's scope gives its cursors and its three iterators the same
  sequence of seeds.
\<close>

theorem input_source_scoped:
  assumes "Options_FullName (Options data1) \<noteq> Options_FullName (Options data2)
           \<or> Options_ConnectionId (Options data1) \<noteq> Options_ConnectionId (Options data2)"
    and "clauses1 \<in> {GetBranchesIterator_clauses data1 cws1, GetCommitsIterator_clauses data1 cws1,
                       GetPullRequestsIterator_clauses data1 cws1}"
    and "clauses2 \<in> {GetBranchesIterator_clauses data2 cws2, GetCommitsIterator_clauses data2 cws2,
                       GetPullRequestsIterator_clauses data2 cws2}"
    and "dal_matching db1 clauses1 = Inr rows1"
    and "dal_matching db2 clauses2 = Inr rows2"
    and "same_scope data1 db1 db1'"
  shows "list_all (in_scope data1) rows1 \<and> list_all (in_scope data2) rows2
         \<and> set rows1 \<inter> set rows2 = {}
         \<and> dal_Cursor db1' clauses1 = dal_Cursor db1 clauses1
         \<and> GetBranchesIterator (dal_Cursor db1') NewDalCursorIterator data1 cws1
             = GetBranchesIterator (dal_Cursor db1) NewDalCursorIterator data1 cws1
         \<and> GetCommitsIterator (dal_Cursor db1') NewDalCursorIterator data1 cws1
             = GetCommitsIterator (dal_Cursor db1) NewDalCursorIterator data1 cws1
         \<and> GetPullRequestsIterator (dal_Cursor db1') NewDalCursorIterator data1 cws1
             = GetPullRequestsIterator (dal_Cursor db1) NewDalCursorIterator data1 cws1"
proof -
  obtain n1 where n1: "scoped_rows db1 n1 data1 cws1 = Inr rows1"
    using iterator_clauses_rows [OF assms(2), of db1] assms(4) by auto
  obtain n2 where n2: "scoped_rows db2 n2 data2 cws2 = Inr rows2"
    using iterator_clauses_rows [OF assms(3), of db2] assms(5) by auto
  have s1: "\<And>r. r \<in> set rows1 \<Longrightarrow> in_scope data1 r"
    using n1 by (rule scoped_rows_in_scope)
  have s2: "\<And>r. r \<in> set rows2 \<Longrightarrow> in_scope data2 r"
    using n2 by (rule scoped_rows_in_scope)
  have disjoint: "set rows1 \<inter> set rows2 = {}"
  proof (rule ccontr)
    assume "set rows1 \<inter> set rows2 \<noteq> {}"
    then obtain r where "r \<in> set rows1" "r \<in> set rows2" by blast
    then have "in_scope data1 r" "in_scope data2 r" using s1 s2 by auto
    then show False using assms(1) in_scope_same_options by blast
  qed
  have c: "\<And>clauses. clauses \<in> {GetBranchesIterator_clauses data1 cws1,
        GetCommitsIterator_clauses data1 cws1, GetPullRequestsIterator_clauses data1 cws1}
      \<Longrightarrow> dal_Cursor db1' clauses = dal_Cursor db1 clauses"
    using iterator_cursor_same_scope [OF assms(6)] by metis
  have "dal_Cursor db1' clauses1 = dal_Cursor db1 clauses1"
    using assms(2) by (rule c)
  moreover have "GetBranchesIterator (dal_Cursor db1') NewDalCursorIterator data1 cws1
      = GetBranchesIterator (dal_Cursor db1) NewDalCursorIterator data1 cws1"
    by (simp add: GetBranchesIterator_def open_iterator_def c)
  moreover have "GetCommitsIterator (dal_Cursor db1') NewDalCursorIterator data1 cws1
      = GetCommitsIterator (dal_Cursor db1) NewDalCursorIterator data1 cws1"
    by (simp add: GetCommitsIterator_def open_iterator_def c)
  moreover have "GetPullRequestsIterator (dal_Cursor db1') NewDalCursorIterator data1 cws1
      = GetPullRequestsIterator (dal_Cursor db1) NewDalCursorIterator data1 cws1"
    by (simp add: GetPullRequestsIterator_def open_iterator_def c)
  ultimately show ?thesis using s1 s2 disjoint by (simp add: list_all_iff)
qed

lemma branches_db_rows:
  "dal_matching branches_db (GetBranchesIterator_clauses data_alpha since_2023)
     = Inr [branch_row ''PROJ/repos/alpha'' ''main'' 1672531300]"
  "dal_matching branches_db (GetBranchesIterator_clauses data_beta full_run)
     = Inr [branch_row ''PROJ/repos/beta'' ''main'' 1672531300]"
  "dal_matching branches_db (GetBranchesIterator_clauses data_alpha full_run)
     = Inr [branch_row ''PROJ/repos/alpha'' ''main'' 1672531300,
            branch_row ''PROJ/repos/alpha'' ''dev'' 1672531100]"
  by (simp_all add: iterator_rows scoped_rows_def branches_db_def branch_row_def in_scope_def
      incremental_filter_def updated_after_def data_alpha_def data_beta_def since_2023_def
      full_run_def)

lemma branches_db_same_scope: "same_scope data_alpha branches_db branches_db'"
  by (simp add: same_scope_def branches_db_def branches_db'_def table_rows_def branch_row_def
      in_scope_def data_alpha_def)

lemma branches_db_cursor:
  "dal_Cursor branches_db (GetBranchesIterator_clauses data_alpha since_2023)
     = Inr [Some (SqlString ''main'')]"
  by (simp add: dal_Cursor_def iterator_columns branches_db_rows branch_row_def)

theorem input_source_scoped_witness:
  "Options_FullName (Options data_alpha) \<noteq> Options_FullName (Options data_beta)
   \<and> dal_matching branches_db (GetBranchesIterator_clauses data_alpha since_2023)
       = Inr [branch_row ''PROJ/repos/alpha'' ''main'' 1672531300]
   \<and> dal_matching branches_db (GetBranchesIterator_clauses data_beta full_run)
       = Inr [branch_row ''PROJ/repos/beta'' ''main'' 1672531300]
   \<and> same_scope data_alpha branches_db branches_db'
   \<and> set [branch_row ''PROJ/repos/alpha'' ''main'' 1672531300]
       \<inter> set [branch_row ''PROJ/repos/beta'' ''main'' 1672531300] = {}
   \<and> dal_Cursor branches_db' (GetBranchesIterator_clauses data_alpha since_2023)
       = Inr [Some (SqlString ''main'')]
   \<and> GetBranchesIterator (dal_Cursor branches_db') NewDalCursorIterator data_alpha since_2023
       = GetBranchesIterator (dal_Cursor branches_db) NewDalCursorIterator data_alpha since_2023"
proof -
  have h1: "Options_FullName (Options data_alpha) \<noteq> Options_FullName (Options data_beta)
      \<or> Options_ConnectionId (Options data_alpha) \<noteq> Options_ConnectionId (Options data_beta)"
    by (simp add: data_alpha_def data_beta_def)
  have h2: "GetBranchesIterator_clauses data_alpha since_2023
      \<in> {GetBranchesIterator_clauses data_alpha since_2023,
          GetCommitsIterator_clauses data_alpha since_2023,
          GetPullRequestsIterator_clauses data_alpha since_2023}"
    by simp
  have h3: "GetBranchesIterator_clauses data_beta full_run
      \<in> {GetBranchesIterator_clauses data_beta full_run,
          GetCommitsIterator_clauses data_beta full_run,
          GetPullRequestsIterator_clauses data_beta full_run}"
    by simp
  have h0: "Options_FullName (Options data_alpha) \<noteq> Options_FullName (Options data_beta)"
    by (simp add: data_alpha_def data_beta_def)
  note h4 = branches_db_rows(1) and h5 = branches_db_rows(2) and h6 = branches_db_same_scope
  show ?thesis
    using input_source_scoped [OF h1 h2 h3 h4 h5 h6] h0 h4 h5 h6 branches_db_cursor
    by simp
qed

end
